theory Spec2Isabelle
  imports Main "HOL-Library.Word"
begin

unbundle bit_operations_syntax

section \<open>Machine model\<close>

text \<open>
  The allocator of \<^verbatim>\<open>mm_grade_91.c\<close> works on raw bytes of one flat address space.
  Addresses, \<^verbatim>\<open>size_t\<close> values and header words are natural numbers; every place
  where the 64-bit or 32-bit arithmetic of the source can wrap around carries its
  \<open>mod\<close>. Memory maps an address to a byte; words are little-endian. The memory is
  total: an access outside the region obtained from the page provider reads or writes
  the byte at that address and does not trap.
\<close>

type_synonym memory = "nat \<Rightarrow> 8 word"

fun load :: "nat \<Rightarrow> memory \<Rightarrow> nat \<Rightarrow> nat" where
  "load 0 m p = 0"
| "load (Suc n) m p = unat (m p) + 256 * load n m (Suc p)"

fun store :: "nat \<Rightarrow> memory \<Rightarrow> nat \<Rightarrow> nat \<Rightarrow> memory" where
  "store 0 m p v = m"
| "store (Suc n) m p v = store n (m(p := of_nat v)) (Suc p) (v div 256)"

text \<open>Pointer arithmetic on \<^verbatim>\<open>char *\<close> and arithmetic on \<^verbatim>\<open>size_t\<close>, both 64 bits wide.\<close>

definition padd :: "nat \<Rightarrow> nat \<Rightarrow> nat" where
  "padd p n = (p + n) mod 2 ^ 64"

definition psub :: "nat \<Rightarrow> nat \<Rightarrow> nat" where
  "psub p n = (p + (2 ^ 64 - n mod 2 ^ 64)) mod 2 ^ 64"

text \<open>The constants of the source.\<close>

definition WSIZE :: nat where "WSIZE = 4"
definition DSIZE :: nat where "DSIZE = 8"
definition CHUNKSIZE :: nat where "CHUNKSIZE = 168"
definition MAXFREESIZE :: nat where "MAXFREESIZE = 20"

text \<open>\<^verbatim>\<open>PACK(size, alloc)\<close> is \<^verbatim>\<open>((size) | (alloc))\<close>.\<close>

definition PACK :: "nat \<Rightarrow> nat \<Rightarrow> nat" where
  "PACK sz alloc = sz OR alloc"

text \<open>\<^verbatim>\<open>GET\<close>/\<^verbatim>\<open>PUT\<close> move an \<^verbatim>\<open>unsigned int\<close> (4 bytes; \<^verbatim>\<open>PUT\<close> keeps the low 32 bits
  of the value), \<^verbatim>\<open>GETLP\<close>/\<^verbatim>\<open>PUTLP\<close> a pointer (8 bytes).\<close>

definition GET :: "memory \<Rightarrow> nat \<Rightarrow> nat" where
  "GET m p = load 4 m p"

definition PUT :: "memory \<Rightarrow> nat \<Rightarrow> nat \<Rightarrow> memory" where
  "PUT m p val = store 4 m p val"

definition GETLP :: "memory \<Rightarrow> nat \<Rightarrow> nat" where
  "GETLP m p = load 8 m p"

definition PUTLP :: "memory \<Rightarrow> nat \<Rightarrow> nat \<Rightarrow> memory" where
  "PUTLP m p val = store 8 m p val"

text \<open>\<^verbatim>\<open>GET(p) & ~0x7\<close> clears the low three bits of the 32-bit word, \<^verbatim>\<open>GET(p) & 0x1\<close>
  keeps the lowest one.\<close>

definition GET_SIZE :: "memory \<Rightarrow> nat \<Rightarrow> nat" where
  "GET_SIZE m p = GET m p - GET m p mod 8"

definition GET_ALLOC :: "memory \<Rightarrow> nat \<Rightarrow> nat" where
  "GET_ALLOC m p = GET m p mod 2"

definition HDRP :: "nat \<Rightarrow> nat" where
  "HDRP bp = psub bp WSIZE"

definition FTRP :: "memory \<Rightarrow> nat \<Rightarrow> nat" where
  "FTRP m bp = psub (padd bp (GET_SIZE m (HDRP bp))) DSIZE"

definition NEXT_BLKP :: "memory \<Rightarrow> nat \<Rightarrow> nat" where
  "NEXT_BLKP m bp = padd bp (GET_SIZE m (psub bp WSIZE))"

definition PREV_BLKP :: "memory \<Rightarrow> nat \<Rightarrow> nat" where
  "PREV_BLKP m bp = psub bp (GET_SIZE m (psub bp DSIZE))"

definition NEXT_FREE :: "memory \<Rightarrow> nat \<Rightarrow> nat" where
  "NEXT_FREE m bp = GETLP m (padd bp DSIZE)"

definition PREV_FREE :: "memory \<Rightarrow> nat \<Rightarrow> nat" where
  "PREV_FREE m bp = GETLP m bp"

section \<open>Allocator state\<close>

text \<open>
  The three globals of the source, the memory, and the state of the page provider
  (\<^verbatim>\<open>memlib\<close>): the current break and the highest break it grants.
\<close>

record state =
  mem :: memory
  mem_brk :: nat
  mem_max_addr :: nat
  heap_listp :: nat
  freelisthead :: nat
  freelisttablehead :: nat

text \<open>
  The library functions \<^verbatim>\<open>memcpy\<close> and \<^verbatim>\<open>memset\<close>. \<open>copy_bytes\<close> and \<open>set_bytes\<close> are what they
  do to the memory (source and destination do not overlap where the allocator calls
  \<^verbatim>\<open>memcpy\<close>). The allocator owns no memory but the provider's region, which ends at
  \<open>mem_max_addr\<close>, and the null pointer names no memory at all: a call that touches a byte
  through the null pointer or past the end of the region has no result (\<open>None\<close>); the
  process dies there. A call with length 0 touches nothing.
\<close>

definition copy_bytes :: "memory \<Rightarrow> nat \<Rightarrow> nat \<Rightarrow> nat \<Rightarrow> memory" where
  "copy_bytes m dst src n = (\<lambda>a. if dst \<le> a \<and> a < dst + n then m (src + (a - dst)) else m a)"

definition set_bytes :: "memory \<Rightarrow> nat \<Rightarrow> nat \<Rightarrow> nat \<Rightarrow> memory" where
  "set_bytes m dst c n = (\<lambda>a. if dst \<le> a \<and> a < dst + n then of_nat c else m a)"

definition accessible :: "state \<Rightarrow> nat \<Rightarrow> nat \<Rightarrow> bool" where
  "accessible s p n = (n = 0 \<or> (p \<noteq> 0 \<and> p + n \<le> mem_max_addr s))"

definition memcpy :: "state \<Rightarrow> nat \<Rightarrow> nat \<Rightarrow> nat \<Rightarrow> state option" where
  "memcpy s dst src n =
     (if accessible s dst n \<and> accessible s src n
      then Some (s\<lparr>mem := copy_bytes (mem s) dst src n\<rparr>) else None)"

definition memset :: "state \<Rightarrow> nat \<Rightarrow> nat \<Rightarrow> nat \<Rightarrow> state option" where
  "memset s dst c n =
     (if accessible s dst n then Some (s\<lparr>mem := set_bytes (mem s) dst c n\<rparr>) else None)"

definition put :: "nat \<Rightarrow> nat \<Rightarrow> state \<Rightarrow> state" where
  "put p val s = s\<lparr>mem := PUT (mem s) p val\<rparr>"

definition putlp :: "nat \<Rightarrow> nat \<Rightarrow> state \<Rightarrow> state" where
  "putlp p val s = s\<lparr>mem := PUTLP (mem s) p val\<rparr>"

text \<open>
  Modelled from the spec: the page provider \<^verbatim>\<open>mem_sbrk\<close> (\<^verbatim>\<open>memlib.c\<close> is not among the
  sources). It extends the region by \<open>incr\<close> bytes and returns the first byte of the
  new region, or refuses and returns the failure indicator \<^verbatim>\<open>(void *)-1\<close>, which is
  what the callers in the source compare with.
\<close>

definition mem_sbrk :: "nat \<Rightarrow> state \<Rightarrow> nat \<times> state" where
  "mem_sbrk incr s =
     (if mem_brk s + incr > mem_max_addr s then (2 ^ 64 - 1, s)
      else (mem_brk s, s\<lparr>mem_brk := mem_brk s + incr\<rparr>))"

section \<open>Size classes and free-list operations\<close>

text \<open>The cast \<^verbatim>\<open>(int)\<close> of an unsigned value, and C's division, which truncates.\<close>

definition to_int :: "nat \<Rightarrow> int" where
  "to_int n = (let v = n mod 2 ^ 32 in if v < 2 ^ 31 then int v else int v - 2 ^ 32)"

definition tdiv :: "int \<Rightarrow> int \<Rightarrow> int" where
  "tdiv a b = sgn a * sgn b * (\<bar>a\<bar> div \<bar>b\<bar>)"

definition choosefreetable_bysize :: "int \<Rightarrow> nat" where
  "choosefreetable_bysize freeblksize =
     (let temp = tdiv freeblksize (int DSIZE) in
      if temp \<le> 3 then 1
      else if temp \<le> 4 then 2
      else if temp \<le> 5 then 3
      else if temp \<le> 6 then 4
      else if temp \<le> 7 then 5
      else if temp \<le> 8 then 6
      else if temp \<le> 9 then 7
      else if temp \<le> 10 then 8
      else if temp \<le> 12 then 9
      else if temp \<le> 16 then 10
      else if temp \<le> 32 then 11
      else if temp \<le> 64 then 12
      else if temp \<le> 128 then 13
      else if temp \<le> 256 then 14
      else if temp \<le> 512 then 15
      else if temp \<le> 1024 then 16
      else if temp \<le> 2048 then 17
      else 18)"

definition choosefreetable :: "memory \<Rightarrow> nat \<Rightarrow> nat" where
  "choosefreetable m bp = choosefreetable_bysize (to_int (GET_SIZE m (HDRP bp)))"

text \<open>The directory slot of class \<open>n\<close>:
  \<^verbatim>\<open>(char*)freelisttablehead + DSIZE * (n-1)\<close>.\<close>

definition slot :: "state \<Rightarrow> nat \<Rightarrow> nat" where
  "slot s n = padd (freelisttablehead s) (DSIZE * (n - 1))"

definition insertFree :: "nat \<Rightarrow> state \<Rightarrow> state" where
  "insertFree bp s0 =
     (let FreetableN = choosefreetable (mem s0) bp;
          s = s0\<lparr>freelisthead := GETLP (mem s0) (slot s0 FreetableN)\<rparr>
      in if bp = freelisthead s then s
         else if freelisthead s \<noteq> 0 then
           (let s1 = putlp (freelisthead s) bp s;
                s2 = putlp (padd bp DSIZE) (freelisthead s1) s1;
                s3 = s2\<lparr>freelisthead := bp\<rparr>;
                s4 = putlp (freelisthead s3) 0 s3
            in putlp (slot s4 FreetableN) (freelisthead s4) s4)
         else
           (let s1 = s\<lparr>freelisthead := bp\<rparr>;
                s2 = putlp (freelisthead s1) 0 s1;
                s3 = putlp (padd (freelisthead s2) DSIZE) 0 s2
            in putlp (slot s3 FreetableN) (freelisthead s3) s3))"

definition deleteFree :: "nat \<Rightarrow> state \<Rightarrow> state" where
  "deleteFree bp s0 =
     (let FreetableN = choosefreetable (mem s0) bp;
          s = s0\<lparr>freelisthead := GETLP (mem s0) (slot s0 FreetableN)\<rparr>;
          pre_f = PREV_FREE (mem s) bp;
          next_f = NEXT_FREE (mem s) bp;
          s1 = (if pre_f \<noteq> 0 then putlp (padd pre_f DSIZE) next_f s
                else putlp (slot s FreetableN) next_f s)
      in if next_f \<noteq> 0 then putlp next_f pre_f s1 else s1)"

section \<open>Coalescing, heap extension, placement, fit search\<close>

definition coalesce :: "nat \<Rightarrow> state \<Rightarrow> nat \<times> state" where
  "coalesce bp s =
     (let prev_alloc = GET_ALLOC (mem s) (FTRP (mem s) (PREV_BLKP (mem s) bp));
          next_alloc = GET_ALLOC (mem s) (HDRP (NEXT_BLKP (mem s) bp));
          sz = GET_SIZE (mem s) (HDRP bp)
      in if prev_alloc \<noteq> 0 \<and> next_alloc \<noteq> 0 then (bp, insertFree bp s)
         else if prev_alloc \<noteq> 0 \<and> next_alloc = 0 then
           (let sz = sz + GET_SIZE (mem s) (HDRP (NEXT_BLKP (mem s) bp));
                s1 = deleteFree (NEXT_BLKP (mem s) bp) s;
                s2 = put (HDRP bp) (PACK sz 0) s1;
                s3 = put (FTRP (mem s2) bp) (PACK sz 0) s2
            in (bp, insertFree bp s3))
         else if prev_alloc = 0 \<and> next_alloc \<noteq> 0 then
           (let sz = sz + GET_SIZE (mem s) (HDRP (PREV_BLKP (mem s) bp));
                s1 = deleteFree (PREV_BLKP (mem s) bp) s;
                s2 = put (FTRP (mem s1) bp) (PACK sz 0) s1;
                s3 = put (HDRP (PREV_BLKP (mem s2) bp)) (PACK sz 0) s2;
                bp' = PREV_BLKP (mem s3) bp
            in (bp', insertFree bp' s3))
         else
           (let sz = sz + (GET_SIZE (mem s) (HDRP (PREV_BLKP (mem s) bp)) +
                               GET_SIZE (mem s) (FTRP (mem s) (NEXT_BLKP (mem s) bp)));
                s1 = deleteFree (PREV_BLKP (mem s) bp) s;
                s2 = deleteFree (NEXT_BLKP (mem s1) bp) s1;
                s3 = put (HDRP (PREV_BLKP (mem s2) bp)) (PACK sz 0) s2;
                s4 = put (FTRP (mem s3) (NEXT_BLKP (mem s3) bp)) (PACK sz 0) s3;
                bp' = PREV_BLKP (mem s4) bp
            in (bp', insertFree bp' s4)))"

definition extend_heap :: "nat \<Rightarrow> state \<Rightarrow> nat \<times> state" where
  "extend_heap words s =
     (let sz = (if words mod 2 \<noteq> 0 then ((words + 1) * WSIZE) mod 2 ^ 64
                  else (words * WSIZE) mod 2 ^ 64);
          r = mem_sbrk sz s;
          bp = fst r;
          s1 = snd r
      in if bp = 2 ^ 64 - 1 then (0, s1)
         else
           (let s2 = put (HDRP bp) (PACK sz 0) s1;
                s3 = put (FTRP (mem s2) bp) (PACK sz 0) s2;
                s4 = put (HDRP (NEXT_BLKP (mem s3) bp)) (PACK 0 1) s3
            in coalesce bp s4))"

text \<open>\<^verbatim>\<open>csize - asize\<close> is a subtraction of \<^verbatim>\<open>size_t\<close> values.\<close>

definition place :: "nat \<Rightarrow> nat \<Rightarrow> state \<Rightarrow> state" where
  "place bp asize s =
     (let csize = GET_SIZE (mem s) (HDRP bp)
      in if psub csize asize \<ge> 3 * DSIZE then
           (let s1 = deleteFree bp s;
                s2 = put (HDRP bp) (PACK asize 1) s1;
                s3 = put (FTRP (mem s2) bp) (PACK asize 1) s2;
                bp' = NEXT_BLKP (mem s3) bp;
                s4 = put (HDRP bp') (PACK (psub csize asize) 0) s3;
                s5 = put (FTRP (mem s4) bp') (PACK (psub csize asize) 0) s4
            in snd (coalesce bp' s5))
         else
           (let s1 = deleteFree bp s;
                s2 = put (HDRP bp) (PACK csize 1) s1
            in put (FTRP (mem s2) bp) (PACK csize 1) s2))"

text \<open>
  The inner loop of \<^verbatim>\<open>find_fit\<close> follows the next-links of one list; on a cyclic list
  with no fit it does not return, which is the value \<open>None\<close>. It yields the block it
  returns from \<^verbatim>\<open>find_fit\<close> with, or 0 when the list is exhausted.
\<close>

partial_function (option) find_fit_list :: "memory \<Rightarrow> nat \<Rightarrow> nat \<Rightarrow> nat option" where
  "find_fit_list m asize bp =
     (if bp \<noteq> 0 \<and> GET_SIZE m (HDRP bp) > 0 then
        (if GET_ALLOC m (HDRP bp) = 0 \<and> asize \<le> GET_SIZE m (HDRP bp) then Some bp
         else find_fit_list m asize (NEXT_FREE m bp))
      else Some 0)"

text \<open>The outer loop, over the class indices \<^verbatim>\<open>FreetableN, ..., MAXFREESIZE - 1\<close>.\<close>

fun find_fit_classes :: "nat list \<Rightarrow> nat \<Rightarrow> state \<Rightarrow> (nat \<times> state) option" where
  "find_fit_classes [] asize s = Some (0, s)"
| "find_fit_classes (i # is) asize s =
     (let s1 = s\<lparr>freelisthead := GETLP (mem s) (slot s i)\<rparr>
      in case find_fit_list (mem s1) asize (freelisthead s1) of
           None \<Rightarrow> None
         | Some bp \<Rightarrow> if bp \<noteq> 0 then Some (bp, s1) else find_fit_classes is asize s1)"

definition find_fit :: "nat \<Rightarrow> state \<Rightarrow> (nat \<times> state) option" where
  "find_fit asize s =
     (let FreetableN = choosefreetable_bysize (to_int asize)
      in find_fit_classes [FreetableN ..< MAXFREESIZE] asize s)"

section \<open>Initialisation and the public entry points\<close>

definition mm_init :: "state \<Rightarrow> int \<times> state" where
  "mm_init s =
     (let freeslistnum = DSIZE * ((MAXFREESIZE * DSIZE + DSIZE + DSIZE - 1) div DSIZE);
          r1 = mem_sbrk freeslistnum s;
          s2 = (snd r1)\<lparr>freelisttablehead := padd (fst r1) DSIZE\<rparr>;
          s3 = put (HDRP (freelisttablehead s2)) (PACK freeslistnum 1) s2;
          s4 = put (FTRP (mem s3) (freelisttablehead s3)) (PACK freeslistnum 1) s3;
          s5 = fold (\<lambda>i t. putlp (padd (freelisttablehead t) (i * DSIZE)) 0 t)
                 [0 ..< MAXFREESIZE] s4;
          r2 = mem_sbrk (4 * WSIZE) s5;
          s7 = (snd r2)\<lparr>heap_listp := fst r2\<rparr>
      in if heap_listp s7 = 2 ^ 64 - 1 then (- 1, s7)
         else
           (let s8 = put (heap_listp s7) 0 s7;
                s9 = put (padd (heap_listp s8) (1 * WSIZE)) (PACK DSIZE 1) s8;
                s10 = put (padd (heap_listp s9) (2 * WSIZE)) (PACK DSIZE 1) s9;
                s11 = put (padd (heap_listp s10) (3 * WSIZE)) (PACK 0 1) s10;
                s12 = s11\<lparr>heap_listp := padd (heap_listp s11) (2 * WSIZE)\<rparr>;
                r3 = extend_heap (CHUNKSIZE div WSIZE) s12
            in if fst r3 = 0 then (- 1, snd r3) else (0, snd r3)))"

text \<open>The size adjustment that \<^verbatim>\<open>malloc\<close> and \<^verbatim>\<open>realloc\<close> both compute, in \<^verbatim>\<open>size_t\<close>.\<close>

definition adjust :: "nat \<Rightarrow> nat" where
  "adjust sz =
     (if sz \<le> DSIZE then 3 * DSIZE
      else DSIZE * (((sz + DSIZE + (DSIZE - 1)) mod 2 ^ 64) div DSIZE))"

definition malloc :: "nat \<Rightarrow> state \<Rightarrow> (nat \<times> state) option" where
  "malloc sz s0 =
     (let s = (if heap_listp s0 = 0 then snd (mm_init s0) else s0)
      in if sz = 0 then Some (0, s)
         else
           (let asize = adjust sz
            in case find_fit asize s of
                 None \<Rightarrow> None
               | Some r \<Rightarrow>
                   if fst r \<noteq> 0 then Some (fst r, place (fst r) asize (snd r))
                   else
                     (let extendsize = max asize CHUNKSIZE;
                          e = extend_heap (extendsize div WSIZE) (snd r)
                      in if fst e = 0 then Some (0, snd e)
                         else Some (fst e, place (fst e) asize (snd e)))))"

definition free :: "nat \<Rightarrow> state \<Rightarrow> state" where
  "free ptr s =
     (if ptr \<noteq> 0 then
        (let fsize = GET_SIZE (mem s) (HDRP ptr);
             s1 = put (HDRP ptr) (PACK fsize 0) s;
             s2 = put (FTRP (mem s1) ptr) (PACK fsize 0) s1
         in snd (coalesce ptr s2))
      else s)"

definition realloc :: "nat \<Rightarrow> nat \<Rightarrow> state \<Rightarrow> (nat \<times> state) option" where
  "realloc oldptr sz s =
     (if sz = 0 then Some (0, free oldptr s)
      else if oldptr = 0 then malloc sz s
      else
        (let oldsize = GET_SIZE (mem s) (HDRP oldptr);
             sz' = adjust sz
         in if sz' \<le> oldsize then Some (oldptr, s)
            else
              (case malloc sz' s of
                 None \<Rightarrow> None
               | Some r \<Rightarrow>
                   if fst r = 0 then Some (0, snd r)
                   else
                     (case memcpy (snd r) (fst r) oldptr oldsize of
                        None \<Rightarrow> None
                      | Some s2 \<Rightarrow> Some (fst r, free oldptr s2)))))"

definition calloc :: "nat \<Rightarrow> nat \<Rightarrow> state \<Rightarrow> (nat \<times> state) option" where
  "calloc nmemb sz s =
     (let bytes = (nmemb * sz) mod 2 ^ 64
      in case malloc bytes s of
           None \<Rightarrow> None
         | Some r \<Rightarrow>
             (case memset (snd r) (fst r) 0 bytes of
                None \<Rightarrow> None
              | Some s2 \<Rightarrow> Some (fst r, s2)))"

section \<open>Observing a heap\<close>

text \<open>
  The heap walk of \<^verbatim>\<open>mm_checkheap\<close>,
  \<^verbatim>\<open>for (bp = heap_listp; GET_SIZE(HDRP(bp)) > 0; bp = NEXT_BLKP(bp))\<close>:
  \<open>blocks m bp xs\<close> holds when the walk from \<open>bp\<close> visits exactly the blocks \<open>xs\<close>,
  each with its block pointer, its size and its allocation bit, and then reaches a header
  of size 0.
\<close>

fun blocks :: "memory \<Rightarrow> nat \<Rightarrow> (nat \<times> nat \<times> nat) list \<Rightarrow> bool" where
  "blocks m bp [] = (GET_SIZE m (HDRP bp) = 0)"
| "blocks m bp (x # xs) =
     (GET_SIZE m (HDRP bp) > 0 \<and> x = (bp, GET_SIZE m (HDRP bp), GET_ALLOC m (HDRP bp)) \<and>
      blocks m (NEXT_BLKP m bp) xs)"

text \<open>
  A free list: following the next-links from \<open>p\<close> visits exactly the nodes \<open>xs\<close> and
  then reaches the null pointer. \<open>free_list s k xs\<close> says so of the list of class \<open>k\<close>.
\<close>

fun chain :: "memory \<Rightarrow> nat \<Rightarrow> nat list \<Rightarrow> bool" where
  "chain m p [] = (p = 0)"
| "chain m p (x # xs) = (p = x \<and> x \<noteq> 0 \<and> chain m (NEXT_FREE m x) xs)"

definition free_list :: "state \<Rightarrow> nat \<Rightarrow> nat list \<Rightarrow> bool" where
  "free_list s k xs = chain (mem s) (GETLP (mem s) (slot s k)) xs"

text \<open>
  An empty heap: the globals hold the zero of their initialisers, nothing has been
  requested from the page provider, which starts at \<open>base\<close> and grants \<open>cap\<close> bytes,
  and the memory is zero everywhere.
\<close>

definition fresh_heap :: "nat \<Rightarrow> nat \<Rightarrow> state" where
  "fresh_heap base cap =
     \<lparr>mem = (\<lambda>a. 0), mem_brk = base, mem_max_addr = base + cap,
      heap_listp = 0, freelisthead = 0, freelisttablehead = 0\<rparr>"

section \<open>Scenarios\<close>

text \<open>
  The heaps of the concrete scenarios, each started on an empty heap at address 4096 whose
  provider grants 352 bytes (what initialisation asks for); there the first block lies at
  4280. Scenario 3 of the specification:
  \<^verbatim>\<open>p = allocate(24); q = allocate(24); r = allocate(24); free(q)\<close>, where \<open>q = 4312\<close>.
\<close>

definition scenario_free_middle :: state where
  "scenario_free_middle =
     free 4312
       (snd (the (malloc 24 (snd (the (malloc 24 (snd (the (malloc 24
          (fresh_heap 4096 352))))))))))"

text \<open>\<^verbatim>\<open>a = allocate(16); b = allocate(16); free(a)\<close>, where \<open>a = 4280\<close>: the heap in which
  \<^verbatim>\<open>allocate(2^64 - 8)\<close> is then called.\<close>

definition scenario_before_huge :: state where
  "scenario_before_huge =
     free 4280 (snd (the (malloc 16 (snd (the (malloc 16 (fresh_heap 4096 352)))))))"


text \<open>\<^verbatim>\<open>p = allocate(16); memset(p, 0xAB, 16)\<close>, where \<open>p = 4280\<close>: the heap in which
  \<^verbatim>\<open>reallocate(p, 17)\<close> is then called.\<close>

definition scenario_before_realloc :: state where
  "scenario_before_realloc =
     the (memset (snd (the (malloc 16 (fresh_heap 4096 352)))) 4280 171 16)"

section \<open>First fit, in the specification's words\<close>

text \<open>
  This definition follows the specification, not the source: "First-fit across classes.
  [...] for k = k0 .. , walk head(k) via next links and return the first block whose size
  \<ge> asize. Null if none." \<open>nodes_of k\<close> is the list of class \<open>k\<close> in next-link order,
  \<open>size_of\<close> the size of a block, \<open>ks\<close> the classes in the order of the search.
\<close>

definition first_fit :: "(nat \<Rightarrow> nat list) \<Rightarrow> (nat \<Rightarrow> nat) \<Rightarrow> nat list \<Rightarrow> nat \<Rightarrow> nat" where
  "first_fit nodes_of size_of ks asize =
     (case find (\<lambda>bp. asize \<le> size_of bp) (concat (map nodes_of ks)) of
        None \<Rightarrow> 0
      | Some bp \<Rightarrow> bp)"

text \<open>
  A heap for trying the search: the directory lies at 1000, and the list of class 11 holds
  the free block at 2008, of 144 bytes, and after it the free block at 3008, of 208 bytes.
\<close>

definition fit_heap :: state where
  "fit_heap =
     \<lparr>mem = PUTLP (PUTLP (PUT (PUT (PUTLP (\<lambda>a. 0) 1080 2008) 2004 144) 3004 208) 2016 3008)
              3016 0,
      mem_brk = 4096, mem_max_addr = 4096, heap_listp = 1176, freelisthead = 0,
      freelisttablehead = 1000\<rparr>"

section \<open>Reading what was written\<close>

lemma store_other: "a < p \<or> p + n \<le> a \<Longrightarrow> store n m p v a = m a"
  by (induction n arbitrary: m p v) auto

lemma load_eq: "(\<And>a. p \<le> a \<Longrightarrow> a < p + n \<Longrightarrow> m a = m' a) \<Longrightarrow> load n m p = load n m' p"
  by (induction n arbitrary: p) auto

lemma load_lt: "load n m p < 256 ^ n"
proof (induction n arbitrary: p)
  case 0
  show ?case by simp
next
  case (Suc n)
  have a: "unat (m p) < 256" using unsigned_less [of "m p"] by simp
  have b: "load n m (Suc p) < 256 ^ n" by (rule Suc)
  have "unat (m p) + 256 * load n m (Suc p) < 256 + 256 * load n m (Suc p)" using a by simp
  also have "\<dots> = 256 * (load n m (Suc p) + 1)" by simp
  also have "\<dots> \<le> 256 * 256 ^ n" using b by (intro mult_le_mono2) simp
  finally show ?case by simp
qed

lemma load_store_same: "load n (store n m p v) p = v mod 256 ^ n"
proof (induction n arbitrary: m p v)
  case 0
  show ?case by simp
next
  case (Suc n)
  let ?m = "store n (m(p := of_nat v)) (Suc p) (v div 256)"
  have a: "?m p = (of_nat v :: 8 word)"
    by (simp add: store_other)
  have b: "unat (of_nat v :: 8 word) = v mod 256"
    by (simp add: unat_of_nat)
  have c: "load n ?m (Suc p) = (v div 256) mod 256 ^ n"
    by (rule Suc)
  have "load (Suc n) (store (Suc n) m p v) p = unat (?m p) + 256 * load n ?m (Suc p)"
    by simp
  also have "\<dots> = v mod 256 + 256 * ((v div 256) mod 256 ^ n)"
    by (simp only: a b c)
  also have "\<dots> = v mod 256 ^ Suc n"
    by (simp add: mod_mult2_eq)
  finally show ?case .
qed

lemma load_store_disj: "q + k \<le> p \<or> p + n \<le> q \<Longrightarrow> load k (store n m p v) q = load k m q"
  by (rule load_eq) (auto simp: store_other)

lemma GET_PUT_same: "GET (PUT m p v) p = v mod 2 ^ 32"
  using load_store_same [of 4 m p v] by (simp add: GET_def PUT_def)

lemma GET_PUT_other: "q + 4 \<le> p \<or> p + 4 \<le> q \<Longrightarrow> GET (PUT m p v) q = GET m q"
  by (simp add: GET_def PUT_def load_store_disj)

lemma GET_PUTLP_other: "q + 4 \<le> p \<or> p + 8 \<le> q \<Longrightarrow> GET (PUTLP m p v) q = GET m q"
  by (simp add: GET_def PUTLP_def load_store_disj)

lemma GETLP_PUTLP_same: "GETLP (PUTLP m p v) p = v mod 2 ^ 64"
  using load_store_same [of 8 m p v] by (simp add: GETLP_def PUTLP_def)

lemma GETLP_PUTLP_other: "q + 8 \<le> p \<or> p + 8 \<le> q \<Longrightarrow> GETLP (PUTLP m p v) q = GETLP m q"
  by (simp add: GETLP_def PUTLP_def load_store_disj)

lemma GETLP_PUT_other: "q + 8 \<le> p \<or> p + 4 \<le> q \<Longrightarrow> GETLP (PUT m p v) q = GETLP m q"
  by (simp add: GETLP_def PUT_def load_store_disj)

lemma GET_lt: "GET m p < 2 ^ 32"
  using load_lt [of 4 m p] by (simp add: GET_def)

lemma GETLP_lt: "GETLP m p < 2 ^ 64"
  using load_lt [of 8 m p] by (simp add: GETLP_def)

lemma GET_PUT: "q = p \<or> q + 4 \<le> p \<or> p + 4 \<le> q \<Longrightarrow>
    GET (PUT m p v) q = (if q = p then v mod 2 ^ 32 else GET m q)"
  by (auto simp: GET_PUT_same GET_PUT_other)

lemma GETLP_PUTLP: "q = p \<or> q + 8 \<le> p \<or> p + 8 \<le> q \<Longrightarrow>
    GETLP (PUTLP m p v) q = (if q = p then v mod 2 ^ 64 else GETLP m q)"
  by (auto simp: GETLP_PUTLP_same GETLP_PUTLP_other)

lemma padd_nowrap: "p + n < 2 ^ 64 \<Longrightarrow> padd p n = p + n"
  by (simp add: padd_def)

lemma psub_nowrap: "n \<le> p \<Longrightarrow> p < 2 ^ 64 \<Longrightarrow> psub p n = p - n"
proof -
  assume a: "n \<le> p" "p < 2 ^ 64"
  then have "n mod 2 ^ 64 = n" by simp
  then have "p + (2 ^ 64 - n mod 2 ^ 64) = (p - n) + 1 * 2 ^ 64" using a by simp
  then have "psub p n = ((p - n) + 1 * 2 ^ 64) mod 2 ^ 64" by (simp only: psub_def)
  also have "\<dots> = (p - n) mod 2 ^ 64" by (simp only: mod_mult_self1)
  also have "\<dots> = p - n" using a by simp
  finally show ?thesis .
qed


lemmas mem_simps = GET_PUT GET_PUTLP_other GETLP_PUTLP GETLP_PUT_other padd_nowrap psub_nowrap

lemmas cdefs = WSIZE_def DSIZE_def CHUNKSIZE_def MAXFREESIZE_def

lemmas macros = HDRP_def FTRP_def NEXT_BLKP_def PREV_BLKP_def NEXT_FREE_def PREV_FREE_def
  GET_SIZE_def GET_ALLOC_def PACK_def put_def putlp_def slot_def choosefreetable_def
  choosefreetable_bysize_def to_int_def tdiv_def

lemmas fdefs = mm_init_def mem_sbrk_def extend_heap_def coalesce_def insertFree_def
  deleteFree_def place_def find_fit_def find_fit_list.simps malloc_def free_def adjust_def
  realloc_def calloc_def

lemma state_cases:
  obtains m b mx h f t where
    "s = \<lparr>mem = m, mem_brk = b, mem_max_addr = mx, heap_listp = h, freelisthead = f,
           freelisttablehead = t\<rparr>"
  by (cases s) auto

lemmas ev = fdefs cdefs macros mem_simps Let_def upt_conv_Cons

section \<open>The size adjustment\<close>

lemma adjust_small: "sz \<le> DSIZE \<Longrightarrow> adjust sz = 3 * DSIZE"
  by (simp add: adjust_def)

lemma adjust_large:
  assumes "DSIZE < sz" and "sz \<le> 2 ^ 64 - 16"
  shows "adjust sz = DSIZE * ((sz + DSIZE + (DSIZE - 1)) div DSIZE)"
    and "DSIZE dvd adjust sz" and "sz + DSIZE \<le> adjust sz" and "adjust sz < sz + 2 * DSIZE"
proof -
  have "sz + DSIZE + (DSIZE - 1) < 2 ^ 64" using assms by (simp add: DSIZE_def)
  then show e: "adjust sz = DSIZE * ((sz + DSIZE + (DSIZE - 1)) div DSIZE)"
    using assms by (simp add: adjust_def)
  show "DSIZE dvd adjust sz" unfolding e by simp
  show "sz + DSIZE \<le> adjust sz" unfolding e DSIZE_def by presburger
  show "adjust sz < sz + 2 * DSIZE" unfolding e DSIZE_def by presburger
qed

section \<open>Lazy initialisation\<close>

text \<open>
  Claim C10. On an empty heap whose page provider grants the 352 bytes that
  initialisation asks for, \<^verbatim>\<open>mm_init\<close> succeeds; beyond the directory (168 bytes) and the
  sentinels (16 bytes) it extends the heap by \<^verbatim>\<open>CHUNKSIZE\<close> = 168 bytes; the heap walk then
  meets the prologue and exactly one free block, of size 168, which is the only node of
  the free list of its class (class 11), all other lists being empty. The first call of
  \<^verbatim>\<open>malloc\<close> runs this initialisation and then proceeds exactly as a call on the
  initialised heap does, which therefore does not initialise again; a call with size 0 on
  an initialised heap leaves the state as it is.
\<close>

theorem lazy_init_one_free_block:
  assumes "heap_listp s = 0" and "mem_brk s + 352 \<le> mem_max_addr s"
    and "mem_max_addr s < 2 ^ 64"
  shows "fst (mm_init s) = 0 \<and>
         mem_brk (snd (mm_init s)) = mem_brk s + 168 + 4 * WSIZE + CHUNKSIZE \<and>
         blocks (mem (snd (mm_init s))) (heap_listp (snd (mm_init s)))
           [(mem_brk s + 176, 8, 1), (mem_brk s + 184, 168, 0)] \<and>
         choosefreetable (mem (snd (mm_init s))) (mem_brk s + 184) = 11 \<and>
         (\<forall>k \<in> set [1 ..< 21].
            free_list (snd (mm_init s)) k (if k = 11 then [mem_brk s + 184] else [])) \<and>
         (\<forall>n. malloc n s = malloc n (snd (mm_init s))) \<and>
         (\<forall>t. heap_listp t \<noteq> 0 \<longrightarrow> malloc 0 t = Some (0, t))"
proof -
  obtain m b mx h f t where s:
    "s = \<lparr>mem = m, mem_brk = b, mem_max_addr = mx, heap_listp = h, freelisthead = f,
           freelisttablehead = t\<rparr>"
    by (rule state_cases)
  have a: "b + 352 \<le> mx" "mx < 2 ^ 64" "h = 0" using assms by (simp_all add: s)
  have 1: "fst (mm_init s) = 0"
    using a unfolding s by (simp add: ev cong: let_weak_cong)
  have 2: "mem_brk (snd (mm_init s)) = mem_brk s + 168 + 4 * WSIZE + CHUNKSIZE"
    using a unfolding s by (simp add: ev cong: let_weak_cong)
  have 3: "blocks (mem (snd (mm_init s))) (heap_listp (snd (mm_init s)))
           [(mem_brk s + 176, 8, 1), (mem_brk s + 184, 168, 0)]"
    using a unfolding s by (simp add: ev cong: let_weak_cong)
  have 4: "choosefreetable (mem (snd (mm_init s))) (mem_brk s + 184) = 11"
    using a unfolding s by (simp add: ev cong: let_weak_cong)
  have 5: "\<forall>k \<in> set [1 ..< 21].
            free_list (snd (mm_init s)) k (if k = 11 then [mem_brk s + 184] else [])"
    using a unfolding s by (simp add: free_list_def ev cong: let_weak_cong)
  have h1: "heap_listp (snd (mm_init s)) \<noteq> 0"
    using a unfolding s by (simp add: ev cong: let_weak_cong)
  have 6: "\<forall>n. malloc n s = malloc n (snd (mm_init s))"
    using h1 assms(1) by (simp add: malloc_def)
  have 7: "\<forall>t. heap_listp t \<noteq> 0 \<longrightarrow> malloc 0 t = Some (0, t)"
    by (simp add: malloc_def)
  show ?thesis using 1 2 3 4 5 6 7 by blast
qed

theorem lazy_init_one_free_block_witness:
  "heap_listp (fresh_heap 4096 352) = 0 \<and>
   mem_brk (fresh_heap 4096 352) + 352 \<le> mem_max_addr (fresh_heap 4096 352) \<and>
   mem_max_addr (fresh_heap 4096 352) < 2 ^ 64 \<and>
   fst (mm_init (fresh_heap 4096 352)) = 0 \<and>
   blocks (mem (snd (mm_init (fresh_heap 4096 352))))
     (heap_listp (snd (mm_init (fresh_heap 4096 352)))) [(4272, 8, 1), (4280, 168, 0)] \<and>
   free_list (snd (mm_init (fresh_heap 4096 352))) 11 [4280] \<and>
   free_list (snd (mm_init (fresh_heap 4096 352))) 3 [] \<and>
   malloc 0 (snd (mm_init (fresh_heap 4096 352))) = Some (0, snd (mm_init (fresh_heap 4096 352)))"
proof -
  have h: "heap_listp (fresh_heap 4096 352) = 0"
    "mem_brk (fresh_heap 4096 352) + 352 \<le> mem_max_addr (fresh_heap 4096 352)"
    "mem_max_addr (fresh_heap 4096 352) < 2 ^ 64"
    by (simp_all add: fresh_heap_def)
  note t = lazy_init_one_free_block [OF h]
  have b: "mem_brk (fresh_heap 4096 352) = 4096" by (simp add: fresh_heap_def)
  have f: "free_list (snd (mm_init (fresh_heap 4096 352))) k
             (if k = 11 then [mem_brk (fresh_heap 4096 352) + 184] else [])"
    if "k \<in> set [1 ..< 21]" for k
    using t that by blast
  have hl: "heap_listp (snd (mm_init (fresh_heap 4096 352))) = 4272"
    using t unfolding b by simp
  have "blocks (mem (snd (mm_init (fresh_heap 4096 352))))
     (heap_listp (snd (mm_init (fresh_heap 4096 352)))) [(4272, 8, 1), (4280, 168, 0)]"
    using t unfolding b by (simp del: blocks.simps)
  moreover have "free_list (snd (mm_init (fresh_heap 4096 352))) 11 [4280]"
    using f [of 11] unfolding b by simp
  moreover have "free_list (snd (mm_init (fresh_heap 4096 352))) 3 []"
    using f [of 3] unfolding b by simp
  moreover have "malloc 0 (snd (mm_init (fresh_heap 4096 352))) =
      Some (0, snd (mm_init (fresh_heap 4096 352)))"
    using hl by (simp add: malloc_def)
  ultimately show ?thesis using h t by blast
qed

section \<open>Bytes\<close>

lemma store_byte: "p \<le> a \<Longrightarrow> a < p + n \<Longrightarrow> store n m p v a = of_nat (v div 256 ^ (a - p))"
proof (induction n arbitrary: m p v)
  case 0
  then show ?case by simp
next
  case (Suc n)
  show ?case
  proof (cases "a = p")
    case True
    then show ?thesis by (simp add: store_other)
  next
    case False
    then have le: "Suc p \<le> a" and lt: "a < Suc p + n" using Suc.prems by simp_all
    have "store n (m(p := of_nat v)) (Suc p) (v div 256) a =
          of_nat (v div 256 div 256 ^ (a - Suc p))"
      using le lt by (rule Suc.IH)
    moreover have "v div 256 div 256 ^ (a - Suc p) = v div 256 ^ (a - p)"
    proof -
      have "a - p = Suc (a - Suc p)" using le by simp
      then show ?thesis by (simp add: div_mult2_eq)
    qed
    ultimately show ?thesis by simp
  qed
qed

lemma PUT_byte:
  "PUT m p v a = (if p \<le> a \<and> a < p + 4 then of_nat (v div 256 ^ (a - p)) else m a)"
  by (auto simp: PUT_def store_byte store_other)

lemma PUTLP_byte:
  "PUTLP m p v a = (if p \<le> a \<and> a < p + 8 then of_nat (v div 256 ^ (a - p)) else m a)"
  by (auto simp: PUTLP_def store_byte store_other)

lemma set_bytes_byte: "set_bytes m d c n a = (if d \<le> a \<and> a < d + n then of_nat c else m a)"
  by (simp add: set_bytes_def)

lemma copy_bytes_byte:
  "copy_bytes m d src n a = (if d \<le> a \<and> a < d + n then m (src + (a - d)) else m a)"
  by (simp add: copy_bytes_def)

lemma GET_set_bytes_other: "p + 4 \<le> d \<or> d + n \<le> p \<Longrightarrow> GET (set_bytes m d c n) p = GET m p"
  unfolding GET_def by (rule load_eq) (auto simp: set_bytes_def)

lemma GETLP_set_bytes_other:
  "p + 8 \<le> d \<or> d + n \<le> p \<Longrightarrow> GETLP (set_bytes m d c n) p = GETLP m p"
  unfolding GETLP_def by (rule load_eq) (auto simp: set_bytes_def)

lemma GET_copy_bytes_other:
  "p + 4 \<le> d \<or> d + n \<le> p \<Longrightarrow> GET (copy_bytes m d src n) p = GET m p"
  unfolding GET_def by (rule load_eq) (auto simp: copy_bytes_def)

lemma GETLP_copy_bytes_other:
  "p + 8 \<le> d \<or> d + n \<le> p \<Longrightarrow> GETLP (copy_bytes m d src n) p = GETLP m p"
  unfolding GETLP_def by (rule load_eq) (auto simp: copy_bytes_def)

lemmas byte_simps = PUT_byte PUTLP_byte set_bytes_byte copy_bytes_byte
  GET_set_bytes_other GETLP_set_bytes_other GET_copy_bytes_other GETLP_copy_bytes_other
  memset_def memcpy_def accessible_def


section \<open>Requests on an empty heap\<close>

lemma malloc_small_fresh:
  assumes "b + 352 \<le> mx" and "mx < 2 ^ 64" and "0 < sz" and "sz \<le> 16"
  shows "\<exists>s'. malloc sz \<lparr>mem = m, mem_brk = b, mem_max_addr = mx, heap_listp = 0,
                          freelisthead = f, freelisttablehead = t\<rparr> = Some (b + 184, s') \<and>
     GET_SIZE (mem s') (HDRP (b + 184)) = 24 \<and> GET_ALLOC (mem s') (HDRP (b + 184)) = 1"
proof -
  have "adjust sz = 24" using assms by (simp add: adjust_def DSIZE_def) presburger
  then show ?thesis
    using assms
    by (simp add: mm_init_def mem_sbrk_def extend_heap_def coalesce_def insertFree_def
        deleteFree_def place_def find_fit_def find_fit_list.simps malloc_def cdefs macros
        mem_simps Let_def upt_conv_Cons cong: let_weak_cong option.case_cong_weak)
qed

text \<open>
  Claim C4. The claim gives every request above D the adjusted size
  \<open>D \<cdot> \<lceil>(size + D) / D\<rceil>\<close>, and the comment on \<^verbatim>\<open>malloc\<close> promises a block of at least \<open>3 \<cdot> D\<close>
  bytes that is large enough to store \<open>size\<close> bytes. For \<open>size = 2^64 - 8\<close>, which is
  \<^verbatim>\<open>(size_t)-8\<close>, the claim's adjusted size is \<open>2^64\<close>; the source adds in \<^verbatim>\<open>size_t\<close>, the sum
  wraps around, and the adjusted size it computes is 0.
\<close>

theorem adjust_wraps_around:
  "adjust (2 ^ 64 - 8) = 0 \<and> DSIZE * ((2 ^ 64 - 8 + DSIZE + (DSIZE - 1)) div DSIZE) = 2 ^ 64"
  by (simp add: adjust_def DSIZE_def)

text \<open>
  What \<^verbatim>\<open>malloc\<close> then does with the adjusted size 0, as the first call on an empty heap: the
  fit search accepts the free block of initialisation, and the call returns that block
  with a header that reports it free, of 336 bytes, in a heap of 352 bytes.
\<close>

lemma huge_first_request:
  assumes "heap_listp s = 0" and "mem_brk s + 352 \<le> mem_max_addr s"
    and "mem_max_addr s < 2 ^ 64"
  shows "\<exists>s'. malloc (2 ^ 64 - 8) s = Some (mem_brk s + 184, s') \<and>
     GET_SIZE (mem s') (HDRP (mem_brk s + 184)) = 336 \<and>
     GET_ALLOC (mem s') (HDRP (mem_brk s + 184)) = 0 \<and> mem_brk s' = mem_brk s + 352"
proof -
  obtain m b mx h f t where s:
    "s = \<lparr>mem = m, mem_brk = b, mem_max_addr = mx, heap_listp = h, freelisthead = f,
           freelisttablehead = t\<rparr>"
    by (rule state_cases)
  show ?thesis
    using assms unfolding s
    by (simp add: ev cong: let_weak_cong option.case_cong_weak)
qed

text \<open>
  The part of claim C4 that the source satisfies. On an empty heap whose provider grants
  352 bytes, \<^verbatim>\<open>allocate(1)\<close> returns the pointer 184 bytes above the provider's base, which
  is not null and is 8-aligned when the base is, to a block whose header reports size 24
  with the allocation bit set. Every request of at most D bytes is adjusted to 24, and
  every larger request of at most \<open>2^64 - 16\<close> bytes to
  \<open>D \<cdot> ((size + D + (D - 1)) div D)\<close>, which is the least multiple of D that is at least
  \<open>size + D\<close>.
\<close>

lemma allocate_one_byte:
  assumes "heap_listp s = 0" and "mem_brk s + 352 \<le> mem_max_addr s"
    and "mem_max_addr s < 2 ^ 64"
  shows "(\<exists>s'. malloc 1 s = Some (mem_brk s + 184, s') \<and>
            (mem_brk s + 184) mod 8 = mem_brk s mod 8 \<and>
            GET_SIZE (mem s') (HDRP (mem_brk s + 184)) = 24 \<and>
            GET_ALLOC (mem s') (HDRP (mem_brk s + 184)) = 1) \<and>
         (\<forall>sz \<le> DSIZE. adjust sz = 3 * DSIZE) \<and>
         (\<forall>sz. DSIZE < sz \<and> sz \<le> 2 ^ 64 - 16 \<longrightarrow>
            adjust sz = DSIZE * ((sz + DSIZE + (DSIZE - 1)) div DSIZE) \<and>
            DSIZE dvd adjust sz \<and> sz + DSIZE \<le> adjust sz \<and> adjust sz < sz + 2 * DSIZE)"
proof -
  obtain m b mx h f t where s:
    "s = \<lparr>mem = m, mem_brk = b, mem_max_addr = mx, heap_listp = h, freelisthead = f,
           freelisttablehead = t\<rparr>"
    by (rule state_cases)
  have a: "b + 352 \<le> mx" "mx < 2 ^ 64" "h = 0" using assms by (simp_all add: s)
  obtain s' where m: "malloc 1 s = Some (b + 184, s')"
    "GET_SIZE (mem s') (HDRP (b + 184)) = 24" "GET_ALLOC (mem s') (HDRP (b + 184)) = 1"
    using malloc_small_fresh [of b mx 1 m f t] a unfolding s by auto
  have "(b + 184) mod 8 = b mod 8" by presburger
  then have 1: "\<exists>s'. malloc 1 s = Some (mem_brk s + 184, s') \<and>
            (mem_brk s + 184) mod 8 = mem_brk s mod 8 \<and>
            GET_SIZE (mem s') (HDRP (mem_brk s + 184)) = 24 \<and>
            GET_ALLOC (mem s') (HDRP (mem_brk s + 184)) = 1"
    using m unfolding s by auto
  show ?thesis using 1 adjust_small adjust_large by blast
qed

section \<open>Reallocation in place\<close>

text \<open>
  Claim C9. For every non-null \<open>ptr\<close> and every size above 0 whose adjusted size is at most
  the size in the header of the block at \<open>ptr\<close>, \<^verbatim>\<open>realloc\<close> returns \<open>ptr\<close> and the state,
  hence the block's header, footer and contents, unchanged. On an empty heap,
  \<^verbatim>\<open>p = allocate(16); x = reallocate(p, 8)\<close> gives \<^verbatim>\<open>x == p\<close>.
\<close>

theorem realloc_shrink_in_place:
  "(ptr \<noteq> 0 \<and> sz \<noteq> 0 \<and> adjust sz \<le> GET_SIZE (mem s) (HDRP ptr) \<longrightarrow>
      realloc ptr sz s = Some (ptr, s)) \<and>
   (heap_listp s0 = 0 \<and> mem_brk s0 + 352 \<le> mem_max_addr s0 \<and> mem_max_addr s0 < 2 ^ 64 \<longrightarrow>
      (\<exists>p s'. malloc 16 s0 = Some (p, s') \<and> p \<noteq> 0 \<and> realloc p 8 s' = Some (p, s')))"
proof (intro conjI impI)
  assume "ptr \<noteq> 0 \<and> sz \<noteq> 0 \<and> adjust sz \<le> GET_SIZE (mem s) (HDRP ptr)"
  then show "realloc ptr sz s = Some (ptr, s)" by (simp add: realloc_def)
next
  assume a0: "heap_listp s0 = 0 \<and> mem_brk s0 + 352 \<le> mem_max_addr s0 \<and> mem_max_addr s0 < 2 ^ 64"
  obtain m b mx h f t where s:
    "s0 = \<lparr>mem = m, mem_brk = b, mem_max_addr = mx, heap_listp = h, freelisthead = f,
            freelisttablehead = t\<rparr>"
    by (rule state_cases)
  have a: "b + 352 \<le> mx" "mx < 2 ^ 64" "h = 0" using a0 by (simp_all add: s)
  obtain s' where m: "malloc 16 s0 = Some (b + 184, s')"
    "GET_SIZE (mem s') (HDRP (b + 184)) = 24"
    using malloc_small_fresh [of b mx 16 m f t] a unfolding s by auto
  have "adjust 8 = 24" by (simp add: adjust_def DSIZE_def)
  then have "realloc (b + 184) 8 s' = Some (b + 184, s')" using m(2) by (simp add: realloc_def)
  then show "\<exists>p s'. malloc 16 s0 = Some (p, s') \<and> p \<noteq> 0 \<and> realloc p 8 s' = Some (p, s')"
    using m(1) by auto
qed

theorem realloc_shrink_in_place_witness:
  "(4280 :: nat) \<noteq> 0 \<and> (8 :: nat) \<noteq> 0 \<and>
   adjust 8 \<le> GET_SIZE (mem (snd (the (malloc 16 (fresh_heap 4096 352))))) (HDRP 4280) \<and>
   realloc 4280 8 (snd (the (malloc 16 (fresh_heap 4096 352)))) =
     Some (4280, snd (the (malloc 16 (fresh_heap 4096 352)))) \<and>
   heap_listp (fresh_heap 4096 352) = 0 \<and>
   mem_brk (fresh_heap 4096 352) + 352 \<le> mem_max_addr (fresh_heap 4096 352) \<and>
   mem_max_addr (fresh_heap 4096 352) < 2 ^ 64 \<and>
   (\<exists>p s'. malloc 16 (fresh_heap 4096 352) = Some (p, s') \<and> p \<noteq> 0 \<and>
      realloc p 8 s' = Some (p, s'))"
proof -
  have h: "heap_listp (fresh_heap 4096 352) = 0 \<and>
    mem_brk (fresh_heap 4096 352) + 352 \<le> mem_max_addr (fresh_heap 4096 352) \<and>
    mem_max_addr (fresh_heap 4096 352) < 2 ^ 64"
    by (simp add: fresh_heap_def)
  obtain s' where m: "malloc 16 (fresh_heap 4096 352) = Some (4280, s')"
    "GET_SIZE (mem s') (HDRP 4280) = 24"
    using malloc_small_fresh [of 4096 4448 16 "\<lambda>a. 0" 0 0] by (auto simp: fresh_heap_def)
  have g: "adjust 8 \<le> GET_SIZE (mem (snd (the (malloc 16 (fresh_heap 4096 352))))) (HDRP 4280)"
    using m by (simp add: adjust_def DSIZE_def)
  show ?thesis
    using h g
      realloc_shrink_in_place [of 4280 8 "snd (the (malloc 16 (fresh_heap 4096 352)))"
        "fresh_heap 4096 352"]
    by simp
qed


section \<open>Scenario runs\<close>

text \<open>The runs below execute the calls of a scenario on an empty heap with any memory
  contents, at any provider base \<open>b\<close>.\<close>

lemma free_middle_run:
  assumes "heap_listp s = 0" and "mem_brk s + 352 \<le> mem_max_addr s"
    and "mem_max_addr s < 2 ^ 64"
  shows "let r1 = malloc 24 s;
             r2 = malloc 24 (snd (the r1));
             r3 = malloc 24 (snd (the r2));
             s4 = free (mem_brk s + 216) (snd (the r3))
         in r1 \<noteq> None \<and> r2 \<noteq> None \<and> r3 \<noteq> None \<and>
            fst (the r1) = mem_brk s + 184 \<and> fst (the r2) = mem_brk s + 216 \<and> fst (the r3) = mem_brk s + 248 \<and>
            blocks (mem s4) (heap_listp s4)
              [(mem_brk s + 176, 8, 1), (mem_brk s + 184, 32, 1), (mem_brk s + 216, 32, 0), (mem_brk s + 248, 32, 1),
               (mem_brk s + 280, 72, 0)] \<and>
            choosefreetable (mem s4) (mem_brk s + 216) = 2 \<and>
            GET_SIZE (mem s4) (HDRP (mem_brk s + 216)) = 32 \<and>
            free_list s4 2 [mem_brk s + 216] \<and> free_list s4 3 [] \<and>
            (\<forall>k \<in> set [1 ..< 21].
               free_list s4 k (if k = 2 then [mem_brk s + 216] else if k = 7 then [mem_brk s + 280] else []))"
proof -
  obtain m b mx h f t where s:
    "s = \<lparr>mem = m, mem_brk = b, mem_max_addr = mx, heap_listp = h, freelisthead = f,
           freelisttablehead = t\<rparr>"
    by (rule state_cases)
  show ?thesis
    using assms unfolding s
    by (simp add: free_list_def ev cong: let_weak_cong option.case_cong_weak)
qed

lemma huge_request_run:
  assumes "heap_listp s = 0" and "mem_brk s + 352 \<le> mem_max_addr s"
    and "mem_max_addr s < 2 ^ 64"
  shows "let r1 = malloc 16 s;
             r2 = malloc 16 (snd (the r1));
             s3 = free (mem_brk s + 184) (snd (the r2));
             r4 = malloc (2 ^ 64 - 8) s3;
             s4 = snd (the r4)
         in blocks (mem s3) (heap_listp s3)
              [(mem_brk s + 176, 8, 1), (mem_brk s + 184, 24, 0), (mem_brk s + 208, 24, 1), (mem_brk s + 232, 120, 0)] \<and>
            r4 \<noteq> None \<and> fst (the r4) = mem_brk s + 184 \<and>
            blocks (mem s4) (heap_listp s4)
              [(mem_brk s + 176, 8, 1), (mem_brk s + 184, 48, 0), (mem_brk s + 232, 120, 0)] \<and>
            mem_max_addr s4 = mem_max_addr s"
proof -
  obtain m b mx h f t where s:
    "s = \<lparr>mem = m, mem_brk = b, mem_max_addr = mx, heap_listp = h, freelisthead = f,
           freelisttablehead = t\<rparr>"
    by (rule state_cases)
  show ?thesis
    using assms unfolding s
    by (simp add: ev cong: let_weak_cong option.case_cong_weak)
qed


lemma realloc_run:
  assumes "heap_listp s = 0" and "mem_brk s + 352 \<le> mem_max_addr s"
    and "mem_max_addr s < 2 ^ 64"
  shows "let r1 = malloc 16 s;
             s1 = snd (the r1);
             su = the (memset s1 (mem_brk s + 184) 171 16);
             ri = malloc (adjust 17) su;
             si = snd (the ri);
             r2 = realloc (mem_brk s + 184) 17 su;
             s2 = snd (the r2);
             sc = free (mem_brk s + 184) (si\<lparr>mem := copy_bytes (mem si) (mem_brk s + 208) (mem_brk s + 184) (min 16 17)\<rparr>)
         in fst (the r1) = mem_brk s + 184 \<and> ri \<noteq> None \<and> fst (the ri) = mem_brk s + 208 \<and>
            r2 \<noteq> None \<and> fst (the r2) = mem_brk s + 208 \<and>
            GET_SIZE (mem su) (HDRP (mem_brk s + 184)) - DSIZE = 16 \<and>
            GET_SIZE (mem su) (HDRP (mem_brk s + 184)) < adjust 17 \<and>
            list_all (\<lambda>a. mem s2 a = 171) [mem_brk s + 208 ..< mem_brk s + 208 + 16] \<and>
            mem s2 (mem_brk s + 208 + 16) = 25 \<and>
            mem sc (mem_brk s + 208 + 16) = mem s (mem_brk s + 208 + 16)"
proof -
  obtain m b mx h f t where s:
    "s = \<lparr>mem = m, mem_brk = b, mem_max_addr = mx, heap_listp = h, freelisthead = f,
           freelisttablehead = t\<rparr>"
    by (rule state_cases)
  show ?thesis
    using assms unfolding s
    by (simp add: ev byte_simps cong: let_weak_cong option.case_cong_weak)
qed

lemma realloc_grow_run:
  assumes "heap_listp s = 0" and "mem_brk s + 4464 \<le> mem_max_addr s"
    and "mem_max_addr s < 2 ^ 64"
  shows "let r1 = malloc 16 s;
             p = mem_brk s + 184;
             s1 = snd (the r1);
             su = the (memset s1 p 171 16);
             r2 = realloc p 4096 su;
             q = fst (the r2);
             s2 = snd (the r2)
         in r1 \<noteq> None \<and> fst (the r1) = p \<and> r2 \<noteq> None \<and> q = mem_brk s + 208 \<and>
            list_all (\<lambda>a. mem s2 a = 171) [q ..< q + 16] \<and>
            blocks (mem s2) (heap_listp s2)
              [(mem_brk s + 176, 8, 1), (p, 24, 0), (q, 4112, 1), (mem_brk s + 4320, 144, 0)] \<and>
            GET_ALLOC (mem s2) (HDRP p) = 0 \<and> q \<noteq> p \<and> q \<noteq> 0 \<and>
            free_list s2 1 [p]"
proof -
  obtain m b mx h f t where s:
    "s = \<lparr>mem = m, mem_brk = b, mem_max_addr = mx, heap_listp = h, freelisthead = f,
           freelisttablehead = t\<rparr>"
    by (rule state_cases)
  show ?thesis
    using assms unfolding s
    by (simp add: free_list_def ev byte_simps cong: let_weak_cong option.case_cong_weak)
qed

lemma refused_run:
  assumes "heap_listp s = 0" and "mem_max_addr s = mem_brk s + 352"
    and "mem_max_addr s < 2 ^ 64"
  shows "let s0 = s;
             si = snd (mm_init s0);
             rf = find_fit (adjust 200) si;
             r = malloc 200 s0;
             r' = malloc 200 si
         in heap_listp si = mem_brk s + 176 \<and> mem_brk si = mem_brk s + 352 \<and> mem_max_addr si = mem_brk s + 352 \<and>
            rf \<noteq> None \<and> fst (the rf) = 0 \<and>
            fst (mem_sbrk (max (adjust 200) CHUNKSIZE) (snd (the rf))) = 2 ^ 64 - 1 \<and>
            mem_max_addr (snd (the rf)) < mem_brk (snd (the rf)) + max (adjust 200) CHUNKSIZE \<and>
            r \<noteq> None \<and> fst (the r) = 0 \<and>
            mem_brk (snd (the r)) = mem_brk s + 352 \<and> heap_listp (snd (the r)) = mem_brk s + 176 \<and>
            GET (mem (snd (the r))) (mem_brk s + 180) = 168 \<and>
            r' \<noteq> None \<and> fst (the r') = 0"
proof -
  obtain m b mx h f t where s:
    "s = \<lparr>mem = m, mem_brk = b, mem_max_addr = mx, heap_listp = h, freelisthead = f,
           freelisttablehead = t\<rparr>"
    by (rule state_cases)
  show ?thesis
    using assms unfolding s
    by (simp add: ev cong: let_weak_cong option.case_cong_weak)
qed

lemma GET_zero: "GET (\<lambda>a. 0) p = 0"
  by (simp add: GET_def eval_nat_numeral)


lemma fresh_352:
  "heap_listp (fresh_heap 4096 352) = 0"
  "mem_brk (fresh_heap 4096 352) + 352 \<le> mem_max_addr (fresh_heap 4096 352)"
  "mem_max_addr (fresh_heap 4096 352) < 2 ^ 64"
  by (simp_all add: fresh_heap_def)

lemma fresh_brk: "mem_brk (fresh_heap base cap) = base"
  by (simp add: fresh_heap_def)

section \<open>A request close to the largest size\<close>

text \<open>
  Claim C2, the failing input. After \<^verbatim>\<open>a = allocate(16); b = allocate(16); free(a)\<close> the heap
  walk meets a free block of 24 bytes, an allocated one of 24 bytes and a free one of 120
  bytes. \<^verbatim>\<open>allocate(2^64 - 8)\<close> then adjusts the size to 0 by wrap-around, takes the free
  block at \<open>a\<close> as a fit, returns the non-null pointer \<open>a\<close>, and leaves a heap whose walk
  meets two free blocks next to each other, of 48 and of 120 bytes.
\<close>

theorem huge_request_adjacent_free_blocks:
  "blocks (mem scenario_before_huge) (heap_listp scenario_before_huge)
     [(4272, 8, 1), (4280, 24, 0), (4304, 24, 1), (4328, 120, 0)] \<and>
   adjust (2 ^ 64 - 8) = 0 \<and>
   malloc (2 ^ 64 - 8) scenario_before_huge \<noteq> None \<and>
   fst (the (malloc (2 ^ 64 - 8) scenario_before_huge)) = 4280 \<and>
   blocks (mem (snd (the (malloc (2 ^ 64 - 8) scenario_before_huge))))
     (heap_listp (snd (the (malloc (2 ^ 64 - 8) scenario_before_huge))))
     [(4272, 8, 1), (4280, 48, 0), (4328, 120, 0)]"
proof -
  have "adjust (2 ^ 64 - 8) = 0" by (simp add: adjust_def DSIZE_def)
  then show ?thesis
    unfolding scenario_before_huge_def
    using huge_request_run [OF fresh_352, unfolded Let_def fresh_brk]
    by (simp del: blocks.simps)
qed

section \<open>Freeing the middle one of three blocks\<close>

text \<open>
  Claim C3, the counterexample. After scenario 3 on an empty heap at address 4096 the
  freed block \<open>q = 4312\<close> has size 32, not 24, and it is the only node of the list of
  class 2; it is not on the list of class 3, which is empty.
\<close>

theorem free_middle_counterexample:
  "fst (the (malloc 24 (snd (the (malloc 24 (fresh_heap 4096 352)))))) = 4312 \<and>
   GET_SIZE (mem scenario_free_middle) (HDRP 4312) = 32 \<and>
   choosefreetable (mem scenario_free_middle) 4312 = 2 \<and>
   free_list scenario_free_middle 2 [4312] \<and>
   \<not> (GET_SIZE (mem scenario_free_middle) (HDRP 4312) = 24 \<and>
      free_list scenario_free_middle 3 [4312])"
proof -
  have "fst (the (malloc 24 (snd (the (malloc 24 (fresh_heap 4096 352)))))) = 4312 \<and>
   GET_SIZE (mem scenario_free_middle) (HDRP 4312) = 32 \<and>
   choosefreetable (mem scenario_free_middle) 4312 = 2 \<and>
   free_list scenario_free_middle 2 [4312] \<and> free_list scenario_free_middle 3 []"
    unfolding scenario_free_middle_def
    using free_middle_run [OF fresh_352, unfolded Let_def fresh_brk]
    by (simp del: blocks.simps)
  then show ?thesis by simp
qed

text \<open>
  Claim C3, as amended. Starting from an empty heap, after
  \<^verbatim>\<open>p = allocate(24); q = allocate(24); r = allocate(24); free(q)\<close> the heap walk meets
  the prologue, \<open>p\<close> (32 bytes, allocated), \<open>q\<close> (32 bytes, free), \<open>r\<close> (32 bytes, allocated)
  and the tail remainder (72 bytes, free): besides the tail remainder there is exactly one
  free block, it has size 32 bytes, and it sits alone on free list class 2; the tail
  remainder sits on class 7 and every other list is empty.
\<close>

theorem free_middle_of_three:
  assumes "heap_listp s = 0" and "mem_brk s + 352 \<le> mem_max_addr s"
    and "mem_max_addr s < 2 ^ 64"
  shows "let r1 = malloc 24 s;
             r2 = malloc 24 (snd (the r1));
             r3 = malloc 24 (snd (the r2));
             s4 = free (mem_brk s + 216) (snd (the r3))
         in r1 \<noteq> None \<and> r2 \<noteq> None \<and> r3 \<noteq> None \<and>
            fst (the r1) = mem_brk s + 184 \<and> fst (the r2) = mem_brk s + 216 \<and>
            fst (the r3) = mem_brk s + 248 \<and>
            blocks (mem s4) (heap_listp s4)
              [(mem_brk s + 176, 8, 1), (mem_brk s + 184, 32, 1), (mem_brk s + 216, 32, 0),
               (mem_brk s + 248, 32, 1), (mem_brk s + 280, 72, 0)] \<and>
            choosefreetable (mem s4) (mem_brk s + 216) = 2 \<and>
            (\<forall>k \<in> set [1 ..< 21].
               free_list s4 k (if k = 2 then [mem_brk s + 216]
                               else if k = 7 then [mem_brk s + 280] else []))"
  using free_middle_run [OF assms] unfolding Let_def by blast

theorem free_middle_of_three_witness:
  "heap_listp (fresh_heap 4096 352) = 0 \<and>
   mem_brk (fresh_heap 4096 352) + 352 \<le> mem_max_addr (fresh_heap 4096 352) \<and>
   mem_max_addr (fresh_heap 4096 352) < 2 ^ 64 \<and>
   blocks (mem scenario_free_middle) (heap_listp scenario_free_middle)
     [(4272, 8, 1), (4280, 32, 1), (4312, 32, 0), (4344, 32, 1), (4376, 72, 0)] \<and>
   free_list scenario_free_middle 2 [4312] \<and> free_list scenario_free_middle 7 [4376] \<and>
   free_list scenario_free_middle 1 []"
proof -
  note t = free_middle_of_three [OF fresh_352, unfolded Let_def fresh_brk]
  have e: "free (4096 + 216) (snd (the (malloc 24 (snd (the (malloc 24 (snd (the (malloc 24
          (fresh_heap 4096 352)))))))))) = scenario_free_middle"
    by (simp add: scenario_free_middle_def)
  have f: "free_list scenario_free_middle k
             (if k = 2 then [4096 + 216] else if k = 7 then [4096 + 280] else [])"
    if "k \<in> set [1 ..< 21]" for k
    using t that unfolding e by blast
  have "blocks (mem scenario_free_middle) (heap_listp scenario_free_middle)
     [(4272, 8, 1), (4280, 32, 1), (4312, 32, 0), (4344, 32, 1), (4376, 72, 0)]"
    using t unfolding e by (simp del: blocks.simps)
  moreover have "free_list scenario_free_middle 2 [4312]" using f [of 2] by simp
  moreover have "free_list scenario_free_middle 7 [4376]" using f [of 7] by simp
  moreover have "free_list scenario_free_middle 1 []" using f [of 1] by simp
  ultimately show ?thesis using fresh_352 by blast
qed


section \<open>Zero-initialised allocation\<close>


text \<open>
  Two calls that do not return. When the underlying \<^verbatim>\<open>malloc\<close> returns the null pointer,
  \<^verbatim>\<open>calloc\<close> passes it to \<^verbatim>\<open>memset\<close> all the same: the source has no check. And for a size
  within 15 of \<open>2^64\<close> the adjusted size wraps around, \<^verbatim>\<open>malloc\<close> returns a small block, and
  \<^verbatim>\<open>memset\<close> runs past the end of the provider's region.
\<close>

lemma calloc_after_refusal:
  "fst (the (malloc 200 (fresh_heap 4096 352))) = 0 \<and> calloc 1 200 (fresh_heap 4096 352) = None"
proof -
  have h: "heap_listp (fresh_heap 4096 352) = 0"
    "mem_max_addr (fresh_heap 4096 352) = mem_brk (fresh_heap 4096 352) + 352"
    "mem_max_addr (fresh_heap 4096 352) < 2 ^ 64"
    by (simp_all add: fresh_heap_def)
  have "malloc 200 (fresh_heap 4096 352) \<noteq> None \<and> fst (the (malloc 200 (fresh_heap 4096 352))) = 0"
    using refused_run [OF h, unfolded Let_def] by blast
  then show ?thesis
    by (auto simp: calloc_def memset_def accessible_def)
qed

lemma calloc_wrapped_size:
  "fst (the (malloc (2 ^ 64 - 8) scenario_before_huge)) = 4280 \<and>
   calloc 1 (2 ^ 64 - 8) scenario_before_huge = None"
proof -
  have "malloc (2 ^ 64 - 8) scenario_before_huge \<noteq> None \<and>
        fst (the (malloc (2 ^ 64 - 8) scenario_before_huge)) = 4280 \<and>
        mem_max_addr (snd (the (malloc (2 ^ 64 - 8) scenario_before_huge))) = 4448"
    unfolding scenario_before_huge_def
    using huge_request_run [OF fresh_352, unfolded Let_def fresh_brk]
    by (simp add: fresh_heap_def)
  then show ?thesis
    by (auto simp: calloc_def memset_def accessible_def)
qed



section \<open>Reallocation into a new block\<close>

text \<open>
  Claim C5, the counterexample. With \<open>p = 4280\<close> a block of 24 bytes (16 bytes of payload)
  filled with \<^verbatim>\<open>0xAB\<close>, \<^verbatim>\<open>reallocate(p, 17)\<close> takes the path of the claim and returns
  \<open>q = 4304\<close>. Copying exactly \<open>min 16 17\<close> bytes and freeing the old block would leave the
  byte at \<open>q + 16\<close> as the inner allocation left it; the source leaves another value
  there (the low byte of the old block's footer).
\<close>

theorem realloc_copy_count_counterexample:
  "GET_SIZE (mem scenario_before_realloc) (HDRP 4280) - DSIZE = 16 \<and>
   GET_SIZE (mem scenario_before_realloc) (HDRP 4280) < adjust 17 \<and>
   malloc (adjust 17) scenario_before_realloc \<noteq> None \<and>
   fst (the (malloc (adjust 17) scenario_before_realloc)) = 4304 \<and>
   realloc 4280 17 scenario_before_realloc \<noteq> None \<and>
   fst (the (realloc 4280 17 scenario_before_realloc)) = 4304 \<and>
   mem (snd (the (realloc 4280 17 scenario_before_realloc))) (4304 + 16) \<noteq>
   mem (free 4280
          ((snd (the (malloc (adjust 17) scenario_before_realloc)))
             \<lparr>mem := copy_bytes (mem (snd (the (malloc (adjust 17) scenario_before_realloc))))
                       4304 4280 (min 16 17)\<rparr>))
       (4304 + 16)"
  unfolding scenario_before_realloc_def
  using realloc_run [OF fresh_352, unfolded Let_def fresh_brk]
  by (simp add: fresh_heap_def)

section \<open>A refused heap extension\<close>

lemma adjust_dvd: "8 dvd adjust sz"
  by (simp add: adjust_def DSIZE_def)

lemma adjust_lt: "adjust sz < 2 ^ 64"
proof (cases "sz \<le> DSIZE")
  case True
  then show ?thesis by (simp add: adjust_def DSIZE_def)
next
  case False
  have "8 * (((sz + 8 + 7) mod 2 ^ 64) div 8) \<le> (sz + 8 + 7) mod 2 ^ 64" by simp
  also have "\<dots> < 2 ^ 64" by simp
  finally show ?thesis using False by (simp add: adjust_def DSIZE_def)
qed

lemma find_fit_classes_state:
  "find_fit_classes ks asize s = Some (p, s') \<Longrightarrow> s' = s\<lparr>freelisthead := freelisthead s'\<rparr>"
proof (induction ks arbitrary: s)
  case Nil
  then show ?case by simp
next
  case (Cons k ks)
  let ?s1 = "s\<lparr>freelisthead := GETLP (mem s) (slot s k)\<rparr>"
  show ?case
  proof (cases "find_fit_list (mem ?s1) asize (freelisthead ?s1)")
    case None
    then show ?thesis using Cons.prems by (simp add: Let_def)
  next
    case (Some bp)
    show ?thesis
    proof (cases "bp = 0")
      case True
      then have "find_fit_classes ks asize ?s1 = Some (p, s')"
        using Cons.prems Some by (simp add: Let_def)
      then have "s' = ?s1\<lparr>freelisthead := freelisthead s'\<rparr>" by (rule Cons.IH)
      then show ?thesis by simp
    next
      case False
      then have "s' = ?s1" using Cons.prems Some by (simp add: Let_def)
      then show ?thesis by simp
    qed
  qed
qed

lemma find_fit_state:
  "find_fit asize s = Some (p, s') \<Longrightarrow> s' = s\<lparr>freelisthead := freelisthead s'\<rparr>"
  unfolding find_fit_def Let_def by (rule find_fit_classes_state)

lemma extend_heap_refused:
  assumes "mem_max_addr s < mem_brk s + n" and "8 dvd n" and "n < 2 ^ 64"
  shows "extend_heap (n div WSIZE) s = (0, s)"
proof -
  obtain k where k: "n = 8 * k" using assms(2) by (elim dvdE)
  have w: "n div WSIZE = 2 * k" by (simp add: k WSIZE_def)
  have "(if (n div WSIZE) mod 2 \<noteq> 0 then ((n div WSIZE + 1) * WSIZE) mod 2 ^ 64
         else ((n div WSIZE) * WSIZE) mod 2 ^ 64) = n"
    using assms(3) by (simp add: w) (simp add: k WSIZE_def)
  then show ?thesis using assms(1)
    by (simp add: extend_heap_def mem_sbrk_def Let_def)
qed

text \<open>
  Claim C7, the counterexample. On an empty heap whose provider grants just the 352 bytes
  of initialisation, \<^verbatim>\<open>allocate(200)\<close> finds no fit on the initialised heap, the provider
  refuses the extension, and the call returns null; yet the heap is not as before the
  call: the break has moved and the word at 4276 has become the header of a free block.
\<close>

theorem refused_first_call_changes_heap:
  "find_fit (adjust 200) (snd (mm_init (fresh_heap 4096 352))) \<noteq> None \<and>
   fst (the (find_fit (adjust 200) (snd (mm_init (fresh_heap 4096 352))))) = 0 \<and>
   fst (mem_sbrk (max (adjust 200) CHUNKSIZE)
          (snd (the (find_fit (adjust 200) (snd (mm_init (fresh_heap 4096 352))))))) =
     2 ^ 64 - 1 \<and>
   malloc 200 (fresh_heap 4096 352) \<noteq> None \<and>
   fst (the (malloc 200 (fresh_heap 4096 352))) = 0 \<and>
   mem_brk (snd (the (malloc 200 (fresh_heap 4096 352)))) \<noteq> mem_brk (fresh_heap 4096 352) \<and>
   GET (mem (snd (the (malloc 200 (fresh_heap 4096 352))))) 4276 \<noteq>
     GET (mem (fresh_heap 4096 352)) 4276"
proof -
  have h: "heap_listp (fresh_heap 4096 352) = 0"
    "mem_max_addr (fresh_heap 4096 352) = mem_brk (fresh_heap 4096 352) + 352"
    "mem_max_addr (fresh_heap 4096 352) < 2 ^ 64"
    by (simp_all add: fresh_heap_def)
  have z: "GET (mem (fresh_heap 4096 352)) 4276 = 0"
    by (simp add: fresh_heap_def GET_zero)
  show ?thesis
    using refused_run [OF h, unfolded Let_def fresh_brk] unfolding z fresh_brk by simp
qed

text \<open>
  Claim C7, as amended. Let \<open>s1\<close> be the heap as the call's lazy initialisation leaves it,
  which is the heap before the call when that was already initialised. When
  \<^verbatim>\<open>allocate(size)\<close> with size above 0 finds no fitting free block and the page provider
  refuses the extension, it returns null and the heap is \<open>s1\<close>: memory, break, directory
  and \<^verbatim>\<open>heap_listp\<close> are those of \<open>s1\<close> (only the scratch variable \<^verbatim>\<open>freelisthead\<close>, which
  the search overwrites, may differ).
\<close>

theorem malloc_refused_keeps_heap:
  assumes "sz \<noteq> 0"
    and "find_fit (adjust sz) (if heap_listp s = 0 then snd (mm_init s) else s) = Some (0, s2)"
    and "mem_max_addr s2 < mem_brk s2 + max (adjust sz) CHUNKSIZE"
  shows "malloc sz s = Some (0, s2) \<and>
         s2 = (if heap_listp s = 0 then snd (mm_init s) else s)\<lparr>freelisthead := freelisthead s2\<rparr>"
proof -
  have d: "8 dvd max (adjust sz) CHUNKSIZE"
    using adjust_dvd [of sz] by (simp add: max_def CHUNKSIZE_def)
  have l: "max (adjust sz) CHUNKSIZE < 2 ^ 64"
    using adjust_lt [of sz] by (simp add: max_def CHUNKSIZE_def)
  have e: "extend_heap (max (adjust sz) CHUNKSIZE div WSIZE) s2 = (0, s2)"
    using assms(3) d l by (rule extend_heap_refused)
  have "malloc sz s = Some (0, s2)"
    using assms(1,2) e by (simp add: malloc_def Let_def)
  then show ?thesis using find_fit_state [OF assms(2)] by simp
qed

theorem malloc_refused_keeps_heap_witness:
  "(200 :: nat) \<noteq> 0 \<and>
   find_fit (adjust 200) (snd (mm_init (fresh_heap 4096 352))) =
     Some (0, snd (the (find_fit (adjust 200) (snd (mm_init (fresh_heap 4096 352)))))) \<and>
   mem_max_addr (snd (the (find_fit (adjust 200) (snd (mm_init (fresh_heap 4096 352)))))) <
     mem_brk (snd (the (find_fit (adjust 200) (snd (mm_init (fresh_heap 4096 352)))))) +
       max (adjust 200) CHUNKSIZE \<and>
   heap_listp (snd (mm_init (fresh_heap 4096 352))) \<noteq> 0 \<and>
   malloc 200 (snd (mm_init (fresh_heap 4096 352))) =
     Some (0, snd (the (find_fit (adjust 200) (snd (mm_init (fresh_heap 4096 352))))))"
proof -
  have h: "heap_listp (fresh_heap 4096 352) = 0"
    "mem_max_addr (fresh_heap 4096 352) = mem_brk (fresh_heap 4096 352) + 352"
    "mem_max_addr (fresh_heap 4096 352) < 2 ^ 64"
    by (simp_all add: fresh_heap_def)
  note r = refused_run [OF h, unfolded Let_def fresh_brk]
  have i: "heap_listp (snd (mm_init (fresh_heap 4096 352))) \<noteq> 0" using r by simp
  have f: "find_fit (adjust 200)
      (if heap_listp (snd (mm_init (fresh_heap 4096 352))) = 0
       then snd (mm_init (snd (mm_init (fresh_heap 4096 352))))
       else snd (mm_init (fresh_heap 4096 352))) =
     Some (0, snd (the (find_fit (adjust 200) (snd (mm_init (fresh_heap 4096 352))))))"
    using r i by auto
  have x: "mem_max_addr (snd (the (find_fit (adjust 200) (snd (mm_init (fresh_heap 4096 352)))))) <
     mem_brk (snd (the (find_fit (adjust 200) (snd (mm_init (fresh_heap 4096 352)))))) +
       max (adjust 200) CHUNKSIZE"
    using r by simp
  have n: "(200 :: nat) \<noteq> 0" by simp
  show ?thesis using malloc_refused_keeps_heap [OF n f x] f x i by simp
qed


section \<open>The fit search\<close>

lemma chain_nonzero: "chain m p xs \<Longrightarrow> 0 \<notin> set xs"
  by (induction xs arbitrary: p) auto

lemma find_fit_list_chain:
  assumes "chain m p xs"
    and "\<forall>x \<in> set xs. 0 < GET_SIZE m (HDRP x) \<and> GET_ALLOC m (HDRP x) = 0"
  shows "find_fit_list m asize p =
         Some (case find (\<lambda>bp. asize \<le> GET_SIZE m (HDRP bp)) xs of None \<Rightarrow> 0 | Some bp \<Rightarrow> bp)"
  using assms
proof (induction xs arbitrary: p)
  case Nil
  then show ?case by (subst find_fit_list.simps) simp
next
  case (Cons x xs)
  then have p: "p = x" "x \<noteq> 0" and c: "chain m (NEXT_FREE m x) xs"
    and x: "0 < GET_SIZE m (HDRP x)" "GET_ALLOC m (HDRP x) = 0" by simp_all
  show ?case
  proof (cases "asize \<le> GET_SIZE m (HDRP x)")
    case True
    then show ?thesis using p x by (subst find_fit_list.simps) simp
  next
    case False
    have "find_fit_list m asize (NEXT_FREE m x) =
          Some (case find (\<lambda>bp. asize \<le> GET_SIZE m (HDRP bp)) xs of None \<Rightarrow> 0 | Some bp \<Rightarrow> bp)"
      using c Cons.prems(2) by (intro Cons.IH) simp_all
    then show ?thesis using False p x by (subst find_fit_list.simps) simp
  qed
qed

lemma find_Some_mem: "find P xs = Some x \<Longrightarrow> x \<in> set xs"
  by (induction xs) (auto split: if_splits)

lemma find_append:
  "find P (xs @ ys) = (case find P xs of None \<Rightarrow> find P ys | Some x \<Rightarrow> Some x)"
  by (induction xs) auto

lemma find_fit_classes_first_fit:
  assumes "\<forall>k \<in> set ks. free_list s k (xss k)"
    and "\<forall>k \<in> set ks. \<forall>x \<in> set (xss k).
           0 < GET_SIZE (mem s) (HDRP x) \<and> GET_ALLOC (mem s) (HDRP x) = 0"
  shows "\<exists>s'. find_fit_classes ks asize s =
           Some (first_fit xss (\<lambda>bp. GET_SIZE (mem s) (HDRP bp)) ks asize, s')"
  using assms
proof (induction ks arbitrary: s)
  case Nil
  then show ?case by (simp add: first_fit_def)
next
  case (Cons k ks)
  let ?s1 = "s\<lparr>freelisthead := GETLP (mem s) (slot s k)\<rparr>"
  let ?P = "\<lambda>bp. asize \<le> GET_SIZE (mem s) (HDRP bp)"
  have c: "chain (mem s) (GETLP (mem s) (slot s k)) (xss k)"
    using Cons.prems(1) by (simp add: free_list_def)
  have n: "\<forall>x \<in> set (xss k). 0 < GET_SIZE (mem s) (HDRP x) \<and> GET_ALLOC (mem s) (HDRP x) = 0"
    using Cons.prems(2) by simp
  have l: "find_fit_list (mem ?s1) asize (freelisthead ?s1) =
           Some (case find ?P (xss k) of None \<Rightarrow> 0 | Some bp \<Rightarrow> bp)"
    using find_fit_list_chain [OF c n] by simp
  show ?case
  proof (cases "find ?P (xss k)")
    case None
    have 1: "\<forall>k \<in> set ks. free_list ?s1 k (xss k)"
      using Cons.prems(1) by (simp add: free_list_def slot_def)
    have 2: "\<forall>k \<in> set ks. \<forall>x \<in> set (xss k).
           0 < GET_SIZE (mem ?s1) (HDRP x) \<and> GET_ALLOC (mem ?s1) (HDRP x) = 0"
      using Cons.prems(2) by simp
    obtain s' where "find_fit_classes ks asize ?s1 =
           Some (first_fit xss (\<lambda>bp. GET_SIZE (mem ?s1) (HDRP bp)) ks asize, s')"
      using Cons.IH [OF 1 2] by blast
    moreover have "first_fit xss (\<lambda>bp. GET_SIZE (mem s) (HDRP bp)) (k # ks) asize =
        first_fit xss (\<lambda>bp. GET_SIZE (mem s) (HDRP bp)) ks asize"
      using None by (simp add: first_fit_def find_append)
    ultimately show ?thesis using l None by (simp add: Let_def)
  next
    case (Some x)
    then have "x \<in> set (xss k)" by (rule find_Some_mem)
    then have "x \<noteq> 0" using chain_nonzero [OF c] by (cases "x = 0") simp_all
    moreover have "first_fit xss (\<lambda>bp. GET_SIZE (mem s) (HDRP bp)) (k # ks) asize = x"
      using Some by (simp add: first_fit_def find_append)
    ultimately show ?thesis using l Some by (simp add: Let_def)
  qed
qed


lemma tdiv_nonneg: "0 \<le> a \<Longrightarrow> tdiv a 8 = a div 8"
  by (cases "a = 0") (simp_all add: tdiv_def)

lemma class_mono:
  assumes "a \<le> b" and "b < 2 ^ 31"
  shows "choosefreetable_bysize (to_int a) \<le> choosefreetable_bysize (to_int b)"
proof -
  have ta: "to_int a = int a" and tb: "to_int b = int b"
    using assms by (simp_all add: to_int_def Let_def)
  have d: "int a div 8 \<le> int b div 8" using assms(1) by (simp add: zdiv_mono1)
  show ?thesis
    unfolding ta tb choosefreetable_bysize_def Let_def DSIZE_def
    using d by (simp add: tdiv_nonneg)
qed

text \<open>
  Claim C8. Let \<open>xss k\<close> be the list of class \<open>k\<close> in next-link order, for every class from
  \<open>k0 = class_of(asize)\<close> on, all of whose nodes are free blocks. Then \<^verbatim>\<open>find_fit\<close> returns
  the first block of size at least \<open>asize\<close> that it meets walking the lists of the classes
  \<open>k0, k0 + 1, \<dots>\<close> in this order, each in next-link order, and the null pointer if there is
  none: a block smaller than \<open>asize\<close> is passed over, at the head of a list as anywhere
  else. The classes below \<open>k0\<close> are not searched, and need not be: when every block is on
  the list of its own class (and sizes are below \<open>2^31\<close>, so that the cast to \<^verbatim>\<open>int\<close> keeps
  them), the answer is the first fit over all the lists, and so the null pointer only if
  no list holds a block of that size.
\<close>

theorem find_fit_is_first_fit:
  assumes "\<forall>k \<in> set [choosefreetable_bysize (to_int asize) ..< MAXFREESIZE]. free_list s k (xss k)"
    and "\<forall>k \<in> set [choosefreetable_bysize (to_int asize) ..< MAXFREESIZE]. \<forall>x \<in> set (xss k).
           0 < GET_SIZE (mem s) (HDRP x) \<and> GET_ALLOC (mem s) (HDRP x) = 0"
  shows "(\<exists>s'. find_fit asize s =
            Some (first_fit xss (\<lambda>bp. GET_SIZE (mem s) (HDRP bp))
                    [choosefreetable_bysize (to_int asize) ..< MAXFREESIZE] asize, s')) \<and>
         (asize < 2 ^ 31 \<and>
          (\<forall>k \<in> set [1 ..< choosefreetable_bysize (to_int asize)]. \<forall>x \<in> set (xss k).
             choosefreetable (mem s) x = k \<and> GET_SIZE (mem s) (HDRP x) < 2 ^ 31) \<longrightarrow>
          first_fit xss (\<lambda>bp. GET_SIZE (mem s) (HDRP bp))
            [choosefreetable_bysize (to_int asize) ..< MAXFREESIZE] asize =
          first_fit xss (\<lambda>bp. GET_SIZE (mem s) (HDRP bp)) [1 ..< MAXFREESIZE] asize)"
proof (intro conjI impI)
  show "\<exists>s'. find_fit asize s =
            Some (first_fit xss (\<lambda>bp. GET_SIZE (mem s) (HDRP bp))
                    [choosefreetable_bysize (to_int asize) ..< MAXFREESIZE] asize, s')"
    unfolding find_fit_def Let_def using assms by (rule find_fit_classes_first_fit)
next
  let ?k0 = "choosefreetable_bysize (to_int asize)"
  let ?sz = "\<lambda>bp. GET_SIZE (mem s) (HDRP bp)"
  assume a: "asize < 2 ^ 31 \<and>
          (\<forall>k \<in> set [1 ..< ?k0]. \<forall>x \<in> set (xss k).
             choosefreetable (mem s) x = k \<and> GET_SIZE (mem s) (HDRP x) < 2 ^ 31)"
  have k1: "1 \<le> ?k0" by (simp add: choosefreetable_bysize_def Let_def)
  have k2: "?k0 \<le> MAXFREESIZE" by (simp add: choosefreetable_bysize_def Let_def MAXFREESIZE_def)
  have low: "find (\<lambda>bp. asize \<le> ?sz bp) (concat (map xss [1 ..< ?k0])) = None"
  proof -
    have "\<not> asize \<le> ?sz x" if xin: "x \<in> set (concat (map xss [1 ..< ?k0]))" for x
    proof
      assume le: "asize \<le> ?sz x"
      obtain k where k: "k \<in> set [1 ..< ?k0]" "x \<in> set (xss k)"
        using xin unfolding set_concat set_map by blast
      then have c: "choosefreetable (mem s) x = k" and b: "?sz x < 2 ^ 31" using a by auto
      have "?k0 \<le> choosefreetable_bysize (to_int (?sz x))" using le b by (rule class_mono)
      then have "?k0 \<le> k" using c by (simp add: choosefreetable_def)
      then show False using k(1) by simp
    qed
    then show ?thesis unfolding find_None_iff by blast
  qed
  have "[1 ..< MAXFREESIZE] = [1 ..< ?k0] @ [?k0 ..< MAXFREESIZE]"
    using k1 k2 by (metis le_iff_add upt_add_eq_append)
  then show "first_fit xss ?sz [?k0 ..< MAXFREESIZE] asize = first_fit xss ?sz [1 ..< MAXFREESIZE] asize"
    using low by (simp add: first_fit_def find_append)
qed

lemma GETLP_zero: "GETLP (\<lambda>a. 0) p = 0"
  by (simp add: GETLP_def eval_nat_numeral)

theorem find_fit_is_first_fit_witness:
  "choosefreetable_bysize (to_int 200) = 11 \<and>
   free_list fit_heap 11 [2008, 3008] \<and> free_list fit_heap 12 [] \<and>
   free_list fit_heap 13 [] \<and> free_list fit_heap 14 [] \<and> free_list fit_heap 15 [] \<and>
   free_list fit_heap 16 [] \<and> free_list fit_heap 17 [] \<and> free_list fit_heap 18 [] \<and>
   free_list fit_heap 19 [] \<and>
   GET_SIZE (mem fit_heap) (HDRP 2008) = 144 \<and> GET_ALLOC (mem fit_heap) (HDRP 2008) = 0 \<and>
   GET_SIZE (mem fit_heap) (HDRP 3008) = 208 \<and> GET_ALLOC (mem fit_heap) (HDRP 3008) = 0 \<and>
   fst (the (find_fit 200 fit_heap)) = 3008 \<and>
   (200 :: nat) < 2 ^ 31 \<and>
   first_fit (\<lambda>k. if k = 11 then [2008, 3008] else [])
     (\<lambda>bp. GET_SIZE (mem fit_heap) (HDRP bp)) [1 ..< MAXFREESIZE] 200 = 3008"
proof -
  have k: "choosefreetable_bysize (to_int 200) = 11"
    by (simp add: choosefreetable_bysize_def to_int_def tdiv_def DSIZE_def)
  have 1: "\<forall>k \<in> set [choosefreetable_bysize (to_int 200) ..< MAXFREESIZE].
      free_list fit_heap k (if k = 11 then [2008, 3008] else [])"
    unfolding k
    by (simp add: fit_heap_def free_list_def cdefs macros mem_simps GETLP_zero GET_zero upt_conv_Cons)
  have 2: "\<forall>k \<in> set [choosefreetable_bysize (to_int 200) ..< MAXFREESIZE].
      \<forall>x \<in> set (if k = 11 then [2008, 3008] else []).
        0 < GET_SIZE (mem fit_heap) (HDRP x) \<and> GET_ALLOC (mem fit_heap) (HDRP x) = 0"
    unfolding k
    by (simp add: fit_heap_def cdefs macros mem_simps GETLP_zero GET_zero upt_conv_Cons)
  have 3: "GET_SIZE (mem fit_heap) (HDRP 2008) = 144" "GET_SIZE (mem fit_heap) (HDRP 3008) = 208"
    "GET_ALLOC (mem fit_heap) (HDRP 2008) = 0" "GET_ALLOC (mem fit_heap) (HDRP 3008) = 0"
    by (simp_all add: fit_heap_def cdefs macros mem_simps GETLP_zero GET_zero)
  have 4: "first_fit (\<lambda>k. if k = 11 then [2008, 3008] else [])
             (\<lambda>bp. GET_SIZE (mem fit_heap) (HDRP bp))
             [choosefreetable_bysize (to_int 200) ..< MAXFREESIZE] 200 = 3008"
    unfolding k by (simp add: first_fit_def MAXFREESIZE_def upt_conv_Cons 3)
  have 5: "\<forall>k \<in> set [1 ..< choosefreetable_bysize (to_int 200)].
      \<forall>x \<in> set (if k = 11 then [2008, 3008] else []).
        choosefreetable (mem fit_heap) x = k \<and> GET_SIZE (mem fit_heap) (HDRP x) < 2 ^ 31"
    unfolding k by simp
  have f: "free_list fit_heap j (if j = 11 then [2008, 3008] else [])"
    if "j \<in> set [11 ..< 20]" for j
    using 1 that unfolding k MAXFREESIZE_def by blast
  have 6: "fst (the (find_fit 200 fit_heap)) = 3008 \<and>
     first_fit (\<lambda>k. if k = 11 then [2008, 3008] else [])
       (\<lambda>bp. GET_SIZE (mem fit_heap) (HDRP bp)) [1 ..< MAXFREESIZE] 200 = 3008"
    using find_fit_is_first_fit [OF 1 2] 5 unfolding 4 by auto
  show ?thesis
    using k 3 6 f [of 11] f [of 12] f [of 13] f [of 14] f [of 15] f [of 16] f [of 17]
      f [of 18] f [of 19]
    by simp
qed

end
